theory Spec2Isabelle
  imports Main "HOL-Library.Multiset"
begin

section \<open>Python values shared by the embedded modules\<close>

text \<open>
  The exceptions the embedded code can raise. Every function that can raise returns
  \<open>pyerror + 'a\<close> with \<open>Inl\<close> for the exception. \<open>FileNotFoundError\<close> and
  \<open>OSError\<close> are the classes Python 3 also calls \<open>IOError\<close>; \<open>EOFError\<close>,
  \<open>ValueError\<close> and \<open>zipfile.BadZipFile\<close> are not among them.
\<close>

datatype pyerror =
    TypeError
  | IndexError
  | ValueError
  | KeyError string
  | AttributeError string
  | NameError string
  | FileNotFoundError string
  | OSError string
  | EOFError
  | BadZipFile


text \<open>
  The argument \<open>data\<close> of \<open>send\<close>: either \<open>None\<close> or a sequence. \<open>data[i]\<close> on
  \<open>None\<close> raises TypeError, past the end of a sequence IndexError.
\<close>

datatype 'v pydata = PyNone | PySeq "'v list"

fun subscript :: "'v pydata \<Rightarrow> nat \<Rightarrow> pyerror + 'v" where
  "subscript PyNone i = Inl TypeError"
| "subscript (PySeq xs) i = (if i < length xs then Inr (xs ! i) else Inl IndexError)"

text \<open>
  A file system: the files present, by path, and the paths at which a write fails.
  Reading an absent path raises FileNotFoundError, writing to an unwritable path OSError.
\<close>

record 'c filesystem =
  files :: "string \<rightharpoonup> 'c"
  unwritable :: "string set"

definition write_file :: "string \<Rightarrow> 'c \<Rightarrow> 'c filesystem \<Rightarrow> pyerror + 'c filesystem" where
  "write_file p c fs =
     (if p \<in> unwritable fs then Inl (OSError p)
      else Inr (fs\<lparr>files := (files fs)(p \<mapsto> c)\<rparr>))"

definition read_file :: "string \<Rightarrow> 'c filesystem \<Rightarrow> pyerror + 'c" where
  "read_file p fs = (case files fs p of None \<Rightarrow> Inl (FileNotFoundError p) | Some c \<Rightarrow> Inr c)"


section \<open>core/interfaces/base/io.py\<close>

subsection \<open>Communicator.print_str and its two overrides\<close>

text \<open>
  A Communicator instance: its class name (what \<open>__repr__\<close> returns) and its attributes,
  each by the string \<open>str\<close> gives for it. Reading an attribute the instance does not have
  raises AttributeError. The class \<open>Sender\<close> declares \<open>target\<close> only, the class
  \<open>Receiver\<close> declares \<open>source\<close> only.
\<close>

record communicator =
  class_name :: string
  attributes :: "string \<rightharpoonup> string"

definition Sender_instance :: "string \<Rightarrow> string \<Rightarrow> communicator" where
  "Sender_instance cls tgt = \<lparr>class_name = cls, attributes = [''target'' \<mapsto> tgt]\<rparr>"

definition Receiver_instance :: "string \<Rightarrow> string \<Rightarrow> communicator" where
  "Receiver_instance cls src = \<lparr>class_name = cls, attributes = [''source'' \<mapsto> src]\<rparr>"

definition getattr :: "communicator \<Rightarrow> string \<Rightarrow> pyerror + string" where
  "getattr c name =
     (case attributes c name of None \<Rightarrow> Inl (AttributeError name) | Some v \<Rightarrow> Inr v)"

definition Communicator_repr :: "communicator \<Rightarrow> string" where
  "Communicator_repr c = class_name c"

text \<open>
  \<open>print_str\<close> returns the names of the attributes it read together with its result.
  The format \<open>"\n%s:%s"\<close> starts with a newline, as does the endpoint line.
\<close>

definition Communicator_print_str ::
  "communicator \<Rightarrow> bool option \<Rightarrow> string list \<times> (pyerror + string)" where
  "Communicator_print_str self sender_not_receiver_flag =
     (case sender_not_receiver_flag of
        Some True \<Rightarrow>
          (case getattr self ''source'' of
             Inl e \<Rightarrow> ([''source''], Inl e)
           | Inr v \<Rightarrow> ([''source''],
               Inr ([CHR 0x0A] @ Communicator_repr self @ '':'' @ [CHR 0x0A] @ ''Source: '' @ v)))
      | Some False \<Rightarrow>
          (case getattr self ''target'' of
             Inl e \<Rightarrow> ([''target''], Inl e)
           | Inr v \<Rightarrow> ([''target''],
               Inr ([CHR 0x0A] @ Communicator_repr self @ '':'' @ [CHR 0x0A] @ ''Target: '' @ v)))
      | None \<Rightarrow> ([], Inr ([CHR 0x0A] @ Communicator_repr self @ '':'')))"

definition Sender_print_str :: "communicator \<Rightarrow> string list \<times> (pyerror + string)" where
  "Sender_print_str self = Communicator_print_str self (Some True)"

definition Receiver_print_str :: "communicator \<Rightarrow> string list \<times> (pyerror + string)" where
  "Receiver_print_str self = Communicator_print_str self (Some False)"

subsection \<open>Arrays and the in-memory transport\<close>

text \<open>
  A numpy array: its shape and its items in storage order. The item type is a parameter:
  integers, or the bit patterns of floats; no function below looks inside an item.
\<close>

datatype 'a ndarray = NDArray (shape: "nat list") (elems: "'a list")

text \<open>
  Arrays are objects with identity. The store holds every live array; a reference is an
  index into it. \<open>np.copy\<close> allocates a new array with the contents of its argument;
  \<open>setitem\<close> is an in-place change of the array a reference points to.
\<close>

type_synonym ref = nat
type_synonym 'a store = "'a ndarray list"

definition np_copy :: "'a store \<Rightarrow> ref \<Rightarrow> 'a store \<times> ref" where
  "np_copy h r = (h @ [h ! r], length h)"

definition setitem :: "'a store \<Rightarrow> ref \<Rightarrow> 'a ndarray \<Rightarrow> 'a store" where
  "setitem h r w = h[r := w]"

text \<open>
  The class Transformer is imported by io.py from another module; io.py uses the four
  buffer attributes below, each holding a reference to an array.
\<close>

record transformer =
  input_time :: ref
  input_buffer :: ref
  output_time :: ref
  output_buffer :: ref

definition SetToTransformer_send ::
  "transformer \<Rightarrow> ref pydata \<Rightarrow> 'a store \<Rightarrow> pyerror + (transformer \<times> 'a store)" where
  "SetToTransformer_send target data h =
     (case subscript data 0 of
        Inl e \<Rightarrow> Inl e
      | Inr r0 \<Rightarrow>
          (case np_copy h r0 of (h1, a1) \<Rightarrow>
             (case subscript data 1 of
                Inl e \<Rightarrow> Inl e
              | Inr r1 \<Rightarrow>
                  (case np_copy h1 r1 of (h2, a2) \<Rightarrow>
                     Inr (target\<lparr>input_time := a1, input_buffer := a2\<rparr>, h2)))))"

definition GetFromTransformer_receive ::
  "transformer \<Rightarrow> 'a store \<Rightarrow> ref list \<times> 'a store" where
  "GetFromTransformer_receive source h =
     (case np_copy h (output_time source) of (h1, a1) \<Rightarrow>
        (case np_copy h1 (output_buffer source) of (h2, a2) \<Rightarrow> ([a1, a2], h2)))"

subsection \<open>The file transport\<close>

text \<open>
  An \<open>.npz\<close> file: a zip archive of named arrays, stored either compressed or not.
  \<open>numpy.savez\<close> writes the arrays it is given by keyword, uncompressed
  (\<open>numpy.savez_compressed\<close> is the compressing variant), and appends \<open>.npz\<close> to a file
  name that does not end with it. \<open>numpy.load\<close> opens exactly the path it is given.
\<close>

datatype 'a npzfile = NpzFile (compressed: bool) (members: "(string \<times> 'a ndarray) list")

text \<open>
  What a path holds: an archive, or a file \<open>numpy.load\<close> cannot read. Of the latter it
  refuses an empty file with EOFError, a file that starts with the zip signature but is
  no readable zip with \<open>zipfile.BadZipFile\<close>, and bytes with neither the zip nor the
  \<open>.npy\<close> signature, which it takes for a pickle, with ValueError, as \<open>allow_pickle\<close>
  is off by default. Files in the single-array \<open>.npy\<close> format, which are neither
  archives nor corrupt, are left out.
\<close>

datatype 'a disk_file = Npz "'a npzfile" | EmptyFile | DamagedZip | OtherBytes

definition endswith :: "string \<Rightarrow> string \<Rightarrow> bool" where
  "endswith s suf = (length suf \<le> length s \<and> drop (length s - length suf) s = suf)"

definition npz_path :: "string \<Rightarrow> string" where
  "npz_path file = (if endswith file ''.npz'' then file else file @ ''.npz'')"

definition np_savez ::
  "string \<Rightarrow> (string \<times> 'a ndarray) list \<Rightarrow> 'a disk_file filesystem
   \<Rightarrow> pyerror + 'a disk_file filesystem" where
  "np_savez file kwds fs = write_file (npz_path file) (Npz (NpzFile False kwds)) fs"

definition np_load :: "string \<Rightarrow> 'a disk_file filesystem \<Rightarrow> pyerror + 'a npzfile" where
  "np_load file fs =
     (case read_file file fs of
        Inl e \<Rightarrow> Inl e
      | Inr (Npz datafile) \<Rightarrow> Inr datafile
      | Inr EmptyFile \<Rightarrow> Inl EOFError
      | Inr DamagedZip \<Rightarrow> Inl BadZipFile
      | Inr OtherBytes \<Rightarrow> Inl ValueError)"

definition npz_getitem :: "'a npzfile \<Rightarrow> string \<Rightarrow> pyerror + 'a ndarray" where
  "npz_getitem datafile key =
     (case map_of (members datafile) key of None \<Rightarrow> Inl (KeyError key) | Some a \<Rightarrow> Inr a)"

definition NPZWriter_send ::
  "string \<Rightarrow> 'a ndarray pydata \<Rightarrow> 'a disk_file filesystem \<Rightarrow> pyerror + 'a disk_file filesystem" where
  "NPZWriter_send target data fs =
     (case subscript data 0 of
        Inl e \<Rightarrow> Inl e
      | Inr t \<Rightarrow>
          (case subscript data 1 of
             Inl e \<Rightarrow> Inl e
           | Inr v \<Rightarrow> np_savez target [(''time'', t), (''values'', v)] fs))"

definition NPZReader_receive ::
  "string \<Rightarrow> 'a disk_file filesystem \<Rightarrow> pyerror + 'a ndarray list" where
  "NPZReader_receive source fs =
     (case np_load source fs of
        Inl e \<Rightarrow> Inl e
      | Inr datafile \<Rightarrow>
          (case npz_getitem datafile ''time'' of
             Inl e \<Rightarrow> Inl e
           | Inr t \<Rightarrow>
               (case npz_getitem datafile ''values'' of
                  Inl e \<Rightarrow> Inl e
                | Inr v \<Rightarrow> Inr [t, v])))"


section \<open>examples/tvb_nest/notebooks/cerebellum/scripts/sbi_script.py\<close>

text \<open>
  The fields of the configuration object the embedded functions read. \<open>assert_config\<close>
  hands back the configuration it is given.
\<close>

record 'g config =
  N_SIM_BATCHES :: int
  N_FIT_RUNS :: int
  Gs :: "'g list"

subsection \<open>priors_samples_per_batch\<close>

text \<open>
  \<open>s[start::step]\<close> for \<open>0 \<le> start\<close> and \<open>1 \<le> step\<close>: the items at the indices
  \<open>start + j * step\<close> for \<open>0 \<le> j < ceil((len(s) - start) / step)\<close>, which is how
  Python counts the items of a slice. A tensor is the list of its rows.
\<close>

definition slice_from_step :: "'a list \<Rightarrow> nat \<Rightarrow> nat \<Rightarrow> 'a list" where
  "slice_from_step xs start step =
     map (\<lambda>j. xs ! (start + j * step)) [0 ..< (length xs - start + step - 1) div step]"

definition torch_save ::
  "'a list \<Rightarrow> string \<Rightarrow> 'a list filesystem \<Rightarrow> pyerror + 'a list filesystem" where
  "torch_save obj path fs = write_file path obj fs"

text \<open>
  The loop \<open>for iB in range(config.N_SIM_BATCHES)\<close>: the batch indices still to do, the
  batches collected so far and the file system. \<open>batch_priors_filepath\<close> builds the path
  of a batch from format strings of the configuration; it is a parameter here.
\<close>

fun batches_loop ::
  "(nat \<Rightarrow> string) \<Rightarrow> bool \<Rightarrow> 'a list \<Rightarrow> nat \<Rightarrow> nat list \<Rightarrow> 'a list list
   \<Rightarrow> 'a list filesystem \<Rightarrow> pyerror + ('a list list \<times> 'a list filesystem)" where
  "batches_loop batch_priors_filepath write_to_files priors_samples n [] batch_samples fs =
     Inr (batch_samples, fs)"
| "batches_loop batch_priors_filepath write_to_files priors_samples n (iB # rest) batch_samples fs =
     (let batch_samples' = batch_samples @ [slice_from_step priors_samples iB n]
      in if write_to_files
         then (case torch_save (last batch_samples') (batch_priors_filepath iB) fs of
                 Inl e \<Rightarrow> Inl e
               | Inr fs' \<Rightarrow>
                   batches_loop batch_priors_filepath write_to_files priors_samples n rest
                     batch_samples' fs')
         else batches_loop batch_priors_filepath write_to_files priors_samples n rest
                batch_samples' fs)"

text \<open>
  \<open>sampled\<close> is what \<open>sample_priors_for_sbi(config)[0]\<close> gives when no samples are passed.
\<close>

definition priors_samples_per_batch ::
  "(pyerror + 'a list) \<Rightarrow> (nat \<Rightarrow> string) \<Rightarrow> 'a list option \<Rightarrow> 'g config \<Rightarrow> bool
   \<Rightarrow> 'a list filesystem \<Rightarrow> pyerror + ('a list list \<times> 'a list filesystem)" where
  "priors_samples_per_batch sampled batch_priors_filepath priors_samples config write_to_files fs =
     (case (case priors_samples of None \<Rightarrow> sampled | Some s \<Rightarrow> Inr s) of
        Inl e \<Rightarrow> Inl e
      | Inr s \<Rightarrow>
          batches_loop batch_priors_filepath write_to_files s (nat (N_SIM_BATCHES config))
            [0 ..< nat (N_SIM_BATCHES config)] [] fs)"

subsection \<open>Loading posterior samples\<close>

text \<open>
  A posterior-samples file is a pickled dict; a value is a list (subscriptable) or a scalar
  such as the entry \<open>G\<close>. The aggregate \<open>all_samples\<close> maps a key to the list of values
  appended so far. Both keep insertion order.
\<close>

datatype 'v sval = SList "'v list" | SScalar 'v

type_synonym 'v samples_file = "(string \<times> 'v sval) list"
type_synonym 'v all_samples = "(string \<times> 'v list) list"

fun subscript0 :: "'v sval \<Rightarrow> pyerror + 'v" where
  "subscript0 (SList []) = Inl IndexError"
| "subscript0 (SList (x # xs)) = Inr x"
| "subscript0 (SScalar x) = Inl TypeError"

fun od_setdefault :: "string \<Rightarrow> 'v all_samples \<Rightarrow> 'v all_samples" where
  "od_setdefault key [] = [(key, [])]"
| "od_setdefault key ((k, vs) # d) =
     (if k = key then (k, vs) # d else (k, vs) # od_setdefault key d)"

fun od_push :: "string \<Rightarrow> 'v \<Rightarrow> 'v all_samples \<Rightarrow> 'v all_samples" where
  "od_push key v [] = []"
| "od_push key v ((k, vs) # d) =
     (if k = key then (k, vs @ [v]) # d else (k, vs) # od_push key v d)"

text \<open>
  \<open>add_posterior_samples_iR\<close> changes \<open>all_samples\<close> in place, so what it has done when
  \<open>val[0]\<close> raises stays done: the result is the exception, if any, and the dict as it is
  left.
\<close>

fun add_posterior_samples_iR ::
  "'v all_samples \<Rightarrow> 'v samples_file \<Rightarrow> pyerror option \<times> 'v all_samples" where
  "add_posterior_samples_iR all_samples [] = (None, all_samples)"
| "add_posterior_samples_iR all_samples ((key, val) # rest) =
     (if key \<noteq> ''G''
      then (let all_samples' = od_setdefault key all_samples
            in case subscript0 val of
                 Inl e \<Rightarrow> (Some e, all_samples')
               | Inr v \<Rightarrow> add_posterior_samples_iR (od_push key v all_samples') rest)
      else add_posterior_samples_iR all_samples rest)"

text \<open>
  A warning names the G index, the run index when there is one, and the exception. Its
  message formats \<open>config.Gs[iG]\<close>, which raises IndexError, inside the handler, when
  \<open>iG\<close> is not an index of \<open>config.Gs\<close>.
\<close>

datatype warning = Warning nat "nat option" pyerror

definition warn_failed ::
  "'g config \<Rightarrow> nat \<Rightarrow> nat option \<Rightarrow> pyerror \<Rightarrow> pyerror + warning" where
  "warn_failed config iG iR e =
     (if iG < length (Gs config) then Inr (Warning iG iR e) else Inl IndexError)"

text \<open>
  \<open>load_posterior_samples\<close> unpickles the file of a G index and a run index; what the file
  system gives for each pair is the parameter \<open>load\<close>. The argument \<open>runs\<close> is \<open>None\<close>,
  \<open>False\<close> or a list of run indices.
\<close>

datatype runs_arg = RunsNone | RunsFalse | RunsList "nat list"

fun runs_loop ::
  "(nat \<Rightarrow> nat option \<Rightarrow> pyerror + 'v samples_file) \<Rightarrow> 'g config \<Rightarrow> nat \<Rightarrow> nat list
   \<Rightarrow> 'v all_samples \<Rightarrow> warning list \<Rightarrow> (pyerror + 'v all_samples) \<times> warning list" where
  "runs_loop load config iG [] samples ws = (Inr samples, ws)"
| "runs_loop load config iG (iR # runs) samples ws =
     (case (case load iG (Some iR) of
              Inl e \<Rightarrow> (Some e, samples)
            | Inr samples_iR \<Rightarrow> add_posterior_samples_iR samples samples_iR) of
        (None, samples') \<Rightarrow> runs_loop load config iG runs samples' ws
      | (Some e, samples') \<Rightarrow>
          (case warn_failed config iG (Some iR) e of
             Inl e' \<Rightarrow> (Inl e', ws)
           | Inr w \<Rightarrow> runs_loop load config iG runs samples' (ws @ [w])))"

definition load_posterior_samples_all_runs ::
  "(nat \<Rightarrow> nat option \<Rightarrow> pyerror + 'v samples_file) \<Rightarrow> 'g config \<Rightarrow> nat \<Rightarrow> runs_arg
   \<Rightarrow> 'v all_samples option \<Rightarrow> warning list \<Rightarrow> (pyerror + 'v all_samples) \<times> warning list" where
  "load_posterior_samples_all_runs load config iG runs samples ws =
     (let samples0 = (case samples of None \<Rightarrow> [] | Some s \<Rightarrow> s)
      in case runs of
           RunsNone \<Rightarrow> runs_loop load config iG [0 ..< nat (N_FIT_RUNS config)] samples0 ws
         | RunsFalse \<Rightarrow> (Inl TypeError, ws)
         | RunsList rs \<Rightarrow> runs_loop load config iG rs samples0 ws)"

text \<open>
  \<open>load_posterior_samples_all_Gs\<close> stores each result under \<open>samples[G]\<close>. The function
  binds no name \<open>G\<close>; \<open>G_global\<close> is the module-level binding of \<open>G\<close>, \<open>None\<close> when
  there is none, and then evaluating the target raises NameError after the right-hand
  side has been computed. An entry is a file's dict (\<open>runs is False\<close>) or an aggregate.
\<close>

datatype 'v g_entry = OneFile "'v samples_file" | AllRuns "'v all_samples"

fun od_set :: "'k \<Rightarrow> 'e \<Rightarrow> ('k \<times> 'e) list \<Rightarrow> ('k \<times> 'e) list" where
  "od_set key v [] = [(key, v)]"
| "od_set key v ((k, u) # d) = (if k = key then (k, v) # d else (k, u) # od_set key v d)"

definition store_under_G ::
  "'k option \<Rightarrow> 'e \<Rightarrow> ('k \<times> 'e) list \<Rightarrow> pyerror + ('k \<times> 'e) list" where
  "store_under_G G_global v samples =
     (case G_global of None \<Rightarrow> Inl (NameError ''G'') | Some G \<Rightarrow> Inr (od_set G v samples))"

fun Gs_loop ::
  "'k option \<Rightarrow> (nat \<Rightarrow> nat option \<Rightarrow> pyerror + 'v samples_file) \<Rightarrow> 'g config \<Rightarrow> runs_arg
   \<Rightarrow> nat list \<Rightarrow> ('k \<times> 'v g_entry) list \<Rightarrow> warning list
   \<Rightarrow> (pyerror + ('k \<times> 'v g_entry) list) \<times> warning list" where
  "Gs_loop G_global load config runs [] samples ws = (Inr samples, ws)"
| "Gs_loop G_global load config runs (iG # iGs) samples ws =
     (case (if runs = RunsFalse
            then (case load iG None of
                    Inl e \<Rightarrow> (Inl e, ws)
                  | Inr f \<Rightarrow> (store_under_G G_global (OneFile f) samples, ws))
            else (case load_posterior_samples_all_runs load config iG runs None ws of
                    (Inl e, ws') \<Rightarrow> (Inl e, ws')
                  | (Inr a, ws') \<Rightarrow> (store_under_G G_global (AllRuns a) samples, ws'))) of
        (Inr samples', ws') \<Rightarrow> Gs_loop G_global load config runs iGs samples' ws'
      | (Inl e, ws') \<Rightarrow>
          (case warn_failed config iG None e of
             Inl e' \<Rightarrow> (Inl e', ws')
           | Inr w \<Rightarrow> Gs_loop G_global load config runs iGs samples (ws' @ [w])))"

definition load_posterior_samples_all_Gs ::
  "'k option \<Rightarrow> (nat \<Rightarrow> nat option \<Rightarrow> pyerror + 'v samples_file) \<Rightarrow> 'g config
   \<Rightarrow> nat list option \<Rightarrow> runs_arg
   \<Rightarrow> (pyerror + ('k \<times> 'v g_entry) list) \<times> warning list" where
  "load_posterior_samples_all_Gs G_global load config iGs runs =
     Gs_loop G_global load config runs
       (case iGs of None \<Rightarrow> [0 ..< length (Gs config)] | Some l \<Rightarrow> l) [] []"


section \<open>tvb_annarchy/annarchy_models/devices.py: the spike detector\<close>

text \<open>
  What the attribute \<open>_data\<close> of a device holds: the empty four-dimensional DataArray
  that \<open>ANNarchyOutputDevice.__init__\<close> assigns, or a Python list of ordered dicts from
  neuron to spike times, the form \<open>ANNarchySpikeDetector._record\<close> works on (the class
  attribute is \<open>[]\<close>). \<open>len\<close> of the empty DataArray is the length of its first
  dimension, 0; a DataArray has no \<open>append\<close>, a list has no \<open>size\<close>.
\<close>

type_synonym 't odict = "(nat \<times> 't list) list"

datatype 't buffer = DataArray_empty | DataList "'t odict list"

fun py_len :: "'t buffer \<Rightarrow> nat" where
  "py_len DataArray_empty = 0"
| "py_len (DataList ds) = length ds"

fun py_append :: "'t buffer \<Rightarrow> 't odict \<Rightarrow> pyerror + 't buffer" where
  "py_append DataArray_empty d = Inl (AttributeError ''append'')"
| "py_append (DataList ds) d = Inr (DataList (ds @ [d]))"

fun py_size :: "'t buffer \<Rightarrow> pyerror + nat" where
  "py_size DataArray_empty = Inr 0"
| "py_size (DataList ds) = Inl (AttributeError ''size'')"

fun py_getitem :: "'t buffer \<Rightarrow> nat \<Rightarrow> pyerror + 't odict" where
  "py_getitem DataArray_empty i = Inl IndexError"
| "py_getitem (DataList ds) i = (if i < length ds then Inr (ds ! i) else Inl IndexError)"

fun odict_update :: "nat \<Rightarrow> 't list \<Rightarrow> 't odict \<Rightarrow> 't odict" where
  "odict_update neuron st [] = [(neuron, st)]"
| "odict_update neuron st ((k, v) # d) =
     (if k = neuron then (k, st) # d else (k, v) # odict_update neuron st d)"

fun py_update_at :: "'t buffer \<Rightarrow> nat \<Rightarrow> nat \<Rightarrow> 't list \<Rightarrow> pyerror + 't buffer" where
  "py_update_at DataArray_empty i neuron st = Inl IndexError"
| "py_update_at (DataList ds) i neuron st =
     (if i < length ds then Inr (DataList (ds[i := odict_update neuron st (ds ! i)]))
      else Inl IndexError)"

text \<open>The builtin \<open>tuple\<close> takes at most one argument; with two it raises TypeError.\<close>

definition py_tuple2 :: "nat \<Rightarrow> nat \<Rightarrow> pyerror + (nat \<times> nat)" where
  "py_tuple2 a b = Inl TypeError"

text \<open>
  A monitor is given by the (neuron, spike times) items its \<open>get("spike")\<close> yields to the
  loop of \<open>_record\<close>. The device holds its monitors, each with the population it records,
  the populations of the network (for \<open>index\<close>) and \<open>_data\<close>.
\<close>

record 't spike_detector =
  monitors :: "((nat \<times> 't list) list \<times> nat) list"
  network_populations :: "nat list"
  data_buffer :: "'t buffer"

record 't events =
  ev_times :: "'t list"
  ev_senders :: "(nat \<times> nat) list"

fun update_items :: "'t buffer \<Rightarrow> nat \<Rightarrow> (nat \<times> 't list) list \<Rightarrow> pyerror + 't buffer" where
  "update_items buf i_m [] = Inr buf"
| "update_items buf i_m ((neuron, spikes_times) # rest) =
     (case py_update_at buf i_m neuron spikes_times of
        Inl e \<Rightarrow> Inl e
      | Inr buf' \<Rightarrow> update_items buf' i_m rest)"

fun record_loop ::
  "nat \<Rightarrow> ((nat \<times> 't list) list \<times> nat) list \<Rightarrow> 't buffer \<Rightarrow> pyerror + 't buffer" where
  "record_loop i_m [] buf = Inr buf"
| "record_loop i_m ((monitor, population) # rest) buf =
     (case (if py_len buf \<le> i_m then py_append buf [] else Inr buf) of
        Inl e \<Rightarrow> Inl e
      | Inr buf1 \<Rightarrow>
          (case update_items buf1 i_m monitor of
             Inl e \<Rightarrow> Inl e
           | Inr buf2 \<Rightarrow> record_loop (Suc i_m) rest buf2))"

definition SpikeDetector_record :: "'t spike_detector \<Rightarrow> pyerror + 't spike_detector" where
  "SpikeDetector_record self =
     (case record_loop 0 (monitors self) (data_buffer self) of
        Inl e \<Rightarrow> Inl e
      | Inr buf \<Rightarrow> Inr (self\<lparr>data_buffer := buf\<rparr>))"

fun index_of :: "nat list \<Rightarrow> nat \<Rightarrow> pyerror + nat" where
  "index_of [] x = Inl ValueError"
| "index_of (y # ys) x =
     (if y = x then Inr 0 else (case index_of ys x of Inl e \<Rightarrow> Inl e | Inr i \<Rightarrow> Inr (Suc i)))"

fun events_items :: "nat \<Rightarrow> (nat \<times> 't list) list \<Rightarrow> 't events \<Rightarrow> pyerror + 't events" where
  "events_items population_ind [] ev = Inr ev"
| "events_items population_ind ((neuron, spikes_times) # rest) ev =
     (let ev1 = ev\<lparr>ev_times := ev_times ev @ spikes_times\<rparr>
      in case py_tuple2 population_ind neuron of
           Inl e \<Rightarrow> Inl e
         | Inr sender \<Rightarrow>
             events_items population_ind rest
               (ev1\<lparr>ev_senders := ev_senders ev1 @ replicate (length spikes_times) sender\<rparr>))"

text \<open>
  The loop of \<open>events\<close> reads \<open>self.data[i_m]\<close>. The device has the attribute
  \<open>_data\<close>; devices.py defines no attribute \<open>data\<close>, so reading it raises
  AttributeError and the rest of the loop body is never reached.
\<close>

definition getattr_data :: "'t spike_detector \<Rightarrow> pyerror + 't buffer" where
  "getattr_data self = Inl (AttributeError ''data'')"

fun events_loop ::
  "'t spike_detector \<Rightarrow> nat \<Rightarrow> ((nat \<times> 't list) list \<times> nat) list \<Rightarrow> 't events
   \<Rightarrow> pyerror + 't events" where
  "events_loop self i_m [] ev = Inr ev"
| "events_loop self i_m ((monitor, population) # rest) ev =
     (case index_of (network_populations self) population of
        Inl e \<Rightarrow> Inl e
      | Inr population_ind \<Rightarrow>
          (case getattr_data self of
             Inl e \<Rightarrow> Inl e
           | Inr data \<Rightarrow>
               (case py_getitem data i_m of
                  Inl e \<Rightarrow> Inl e
                | Inr d \<Rightarrow>
                    (case events_items population_ind d ev of
                       Inl e \<Rightarrow> Inl e
                     | Inr ev' \<Rightarrow> events_loop self (Suc i_m) rest ev'))))"

definition SpikeDetector_events ::
  "'t spike_detector \<Rightarrow> pyerror + ('t events \<times> 't spike_detector)" where
  "SpikeDetector_events self =
     (case SpikeDetector_record self of
        Inl e \<Rightarrow> Inl e
      | Inr self' \<Rightarrow>
          (case events_loop self' 0 (monitors self') \<lparr>ev_times = [], ev_senders = []\<rparr> of
             Inl e \<Rightarrow> Inl e
           | Inr ev \<Rightarrow> Inr (ev, self')))"

text \<open>
  \<open>number_of_events\<close> is inherited from ANNarchyOutputDevice; on a spike detector its
  \<open>self._record()\<close> is the override above.
\<close>

definition SpikeDetector_number_of_events ::
  "'t spike_detector \<Rightarrow> pyerror + (nat \<times> 't spike_detector)" where
  "SpikeDetector_number_of_events self =
     (case SpikeDetector_record self of
        Inl e \<Rightarrow> Inl e
      | Inr self' \<Rightarrow>
          (case py_size (data_buffer self') of
             Inl e \<Rightarrow> Inl e
           | Inr n \<Rightarrow> Inr (n, self')))"


section \<open>Strided slices partition the samples\<close>

lemma ceil_div_less: 
  fixes n m j :: nat
  assumes "0 < n" shows "j < (m + n - 1) div n \<longleftrightarrow> j * n < m"
proof -
  have "j < (m + n - 1) div n \<longleftrightarrow> Suc j \<le> (m + n - 1) div n" by auto
  also have "\<dots> \<longleftrightarrow> Suc j * n \<le> m + n - 1"
    using assms by (simp only: less_eq_div_iff_mult_less_eq)
  also have "\<dots> \<longleftrightarrow> j * n < m" using assms by (cases n) auto
  finally show ?thesis .
qed

lemma ceil_div_shift:
  fixes n q a :: nat
  assumes "0 < n" "a < n" shows "(q * n + a) div n = q"
  using assms by simp

lemma ceil_div_Suc:
  fixes n m :: nat
  assumes "0 < n"
  shows "(Suc m + n - 1) div n = (m + n - 1) div n + (if m mod n = 0 then 1 else 0)"
proof -
  define q where "q = m div n"
  define r where "r = m mod n"
  have m: "m = q * n + r" and r: "r < n"
    using assms by (simp_all add: q_def r_def)
  have b: "(Suc m + n - 1) div n = Suc q"
  proof -
    have "Suc m + n - 1 = Suc q * n + r" using m by simp
    then show ?thesis using ceil_div_shift[OF assms r, of "Suc q"] by (simp del: mult_Suc)
  qed
  show ?thesis
  proof (cases "r = 0")
    case True
    have "m + n - 1 = q * n + (n - 1)" using True m assms by simp
    then have a: "(m + n - 1) div n = q"
      using ceil_div_shift[OF assms, of "n - 1" q] assms by simp
    show ?thesis using a b True by (simp add: r_def)
  next
    case False
    have "m + n - 1 = Suc q * n + (r - 1)" using False m by simp
    then have a: "(m + n - 1) div n = Suc q"
      using ceil_div_shift[OF assms, of "r - 1" "Suc q"] r by (simp del: mult_Suc)
    show ?thesis using a b False by (simp add: r_def)
  qed
qed


lemma slice_count_snoc:
  fixes n b l :: nat
  assumes "b < n"
  shows "(Suc l - b + n - 1) div n = (l - b + n - 1) div n + (if l mod n = b then 1 else 0)"
proof (cases "b \<le> l")
  case True
  have n: "0 < n" using assms by simp
  have eq: "(l mod n = b) = ((l - b) mod n = 0)"
  proof
    assume "l mod n = b"
    then show "(l - b) mod n = 0" by (metis mod_eq_0_iff_dvd dvd_minus_mod)
  next
    assume z: "(l - b) mod n = 0"
    have "l = (l - b) + b" using True by simp
    then have "l mod n = ((l - b) mod n + b mod n) mod n" by (metis mod_add_eq)
    then show "l mod n = b" using z assms by simp
  qed
  have "Suc l - b = Suc (l - b)" using True by simp
  then show ?thesis using ceil_div_Suc[OF n, of "l - b"] eq by simp
next
  case False
  then have "l mod n \<noteq> b" using assms by simp
  moreover have "Suc l - b = 0" "l - b = 0" using False by simp_all
  ultimately show ?thesis by simp
qed

lemma slice_index_in_range:
  fixes n b l j :: nat
  assumes "b < n" "j < (l - b + n - 1) div n"
  shows "b + j * n < l"
proof -
  have "j * n < l - b" using assms ceil_div_less[of n j "l - b"] by simp
  then show ?thesis by simp
qed

lemma slice_last_index:
  fixes n b l :: nat
  assumes "b < n" "l mod n = b"
  shows "b + ((l - b + n - 1) div n) * n = l"
proof -
  have n: "0 < n" using assms by simp
  have "b \<le> l" using assms by (metis mod_less_eq_dividend)
  have "n dvd (l - b)" using assms by (metis dvd_minus_mod)
  then obtain q where q: "l - b = q * n" by (metis dvd_def mult.commute)
  have "l - b + n - 1 = q * n + (n - 1)" using q n by simp
  then have "(l - b + n - 1) div n = q" using ceil_div_shift[OF n, of "n - 1" q] n by simp
  then show ?thesis using q \<open>b \<le> l\<close> by simp
qed

lemma slice_from_step_snoc:
  assumes "b < n"
  shows "slice_from_step (xs @ [x]) b n =
         slice_from_step xs b n @ (if length xs mod n = b then [x] else [])"
proof -
  let ?k = "(length xs - b + n - 1) div n"
  have inr: "\<And>j. j < ?k \<Longrightarrow> (xs @ [x]) ! (b + j * n) = xs ! (b + j * n)"
    using slice_index_in_range[OF assms] by (simp add: nth_append)
  have old: "map (\<lambda>j. (xs @ [x]) ! (b + j * n)) [0..<?k] = map (\<lambda>j. xs ! (b + j * n)) [0..<?k]"
    using inr by simp
  show ?thesis
  proof (cases "length xs mod n = b")
    case True
    have k: "(Suc (length xs) - b + n - 1) div n = Suc ?k"
      using slice_count_snoc[OF assms, of "length xs"] True by simp
    have "b + ?k * n = length xs"
      by (rule slice_last_index[OF assms True])
    then have "(xs @ [x]) ! (b + ?k * n) = (xs @ [x]) ! length xs"
      by (simp only:)
    then have last: "(xs @ [x]) ! (b + ?k * n) = x"
      by (simp only: nth_append_length)
    have "slice_from_step (xs @ [x]) b n =
          map (\<lambda>j. (xs @ [x]) ! (b + j * n)) [0..<Suc ?k]"
      unfolding slice_from_step_def using k by (simp only: length_append_singleton)
    also have "\<dots> = map (\<lambda>j. (xs @ [x]) ! (b + j * n)) [0..<?k] @ [(xs @ [x]) ! (b + ?k * n)]"
      by (simp only: upt_Suc_append[OF le0] map_append list.map)
    also have "\<dots> = slice_from_step xs b n @ [x]"
      unfolding slice_from_step_def by (simp only: old last)
    finally show ?thesis using True by simp
  next
    case False
    have k: "(Suc (length xs) - b + n - 1) div n = ?k"
      using slice_count_snoc[OF assms, of "length xs"] False by simp
    have "slice_from_step (xs @ [x]) b n =
          map (\<lambda>j. (xs @ [x]) ! (b + j * n)) [0..<?k]"
      unfolding slice_from_step_def using k by (simp only: length_append_singleton)
    also have "\<dots> = slice_from_step xs b n"
      unfolding slice_from_step_def by (simp only: old)
    finally show ?thesis using False by simp
  qed
qed

lemma mset_concat_one_extra:
  assumes "distinct bs"
  shows "mset (concat (map (\<lambda>b. g b @ (if c = b then [x] else [])) bs)) =
         mset (concat (map g bs)) + (if c \<in> set bs then {#x#} else {#})"
  using assms by (induction bs) auto

lemma mset_slices:
  assumes "0 < n"
  shows "mset (concat (map (\<lambda>b. slice_from_step s b n) [0..<n])) = mset s"
proof (induction s rule: rev_induct)
  case Nil
  have "\<And>b. slice_from_step ([]::'a list) b n = []"
    using assms by (simp add: slice_from_step_def)
  then show ?case by simp
next
  case (snoc x xs)
  have m: "map (\<lambda>b. slice_from_step (xs @ [x]) b n) [0..<n] =
        map (\<lambda>b. slice_from_step xs b n @ (if length xs mod n = b then [x] else [])) [0..<n]"
    by (rule map_cong) (simp_all add: slice_from_step_snoc)
  have "mset (concat (map (\<lambda>b. slice_from_step (xs @ [x]) b n) [0..<n])) =
        mset (concat (map (\<lambda>b. slice_from_step xs b n) [0..<n])) +
        (if length xs mod n \<in> set [0..<n] then {#x#} else {#})"
    unfolding m by (rule mset_concat_one_extra) simp
  then show ?case using snoc assms by simp
qed

lemma length_slices:
  assumes "0 < n"
  shows "sum_list (map length (map (\<lambda>b. slice_from_step s b n) [0..<n])) = length s"
proof -
  have "sum_list (map length (map (\<lambda>b. slice_from_step s b n) [0..<n])) =
        size (mset (concat (map (\<lambda>b. slice_from_step s b n) [0..<n])))"
    by (simp only: size_mset length_concat)
  then show ?thesis using mset_slices[OF assms, of s] by simp
qed

lemma slice_from_step_nth:
  assumes "j < length (slice_from_step s b n)"
  shows "slice_from_step s b n ! j = s ! (b + j * n)"
  using assms by (simp add: slice_from_step_def)

lemma batches_loop_returns:
  assumes "write_to_files \<longrightarrow> (\<forall>iB \<in> set bs. path iB \<notin> unwritable fs)"
  shows "\<exists>fs'. batches_loop path write_to_files s n bs acc fs =
                 Inr (acc @ map (\<lambda>iB. slice_from_step s iB n) bs, fs')
               \<and> unwritable fs' = unwritable fs \<and> (\<not> write_to_files \<longrightarrow> fs' = fs)"
  using assms
proof (induction bs arbitrary: acc fs)
  case Nil
  then show ?case by simp
next
  case (Cons iB bs)
  show ?case
  proof (cases write_to_files)
    case False
    then show ?thesis using Cons.IH[of fs "acc @ [slice_from_step s iB n]"] by simp
  next
    case True
    define fs1 where "fs1 = fs\<lparr>files := (files fs)(path iB \<mapsto> slice_from_step s iB n)\<rparr>"
    have w: "torch_save (slice_from_step s iB n) (path iB) fs = Inr fs1"
      using True Cons.prems by (simp add: torch_save_def write_file_def fs1_def)
    have u: "unwritable fs1 = unwritable fs" by (simp add: fs1_def)
    have "write_to_files \<longrightarrow> (\<forall>iB \<in> set bs. path iB \<notin> unwritable fs1)"
      using Cons.prems u by simp
    from Cons.IH[OF this, of "acc @ [slice_from_step s iB n]"]
    show ?thesis using True w u by simp
  qed
qed

text \<open>
  C10. For a batch count \<open>N = config.N_SIM_BATCHES\<close> of at least 1 (and, when the batches
  are also written to files, no batch path at which writing fails),
  \<open>priors_samples_per_batch\<close> returns the \<open>N\<close> strided slices \<open>s[0::N]\<close>, ...,
  \<open>s[N-1::N]\<close>. Item \<open>j\<close> of batch \<open>b\<close> is row \<open>b + j * N\<close> of \<open>s\<close>; the
  concatenation of the batches has exactly the rows of \<open>s\<close>, each as often as \<open>s\<close>
  has it, so the batches partition the samples and the number of rows is preserved.
\<close>

theorem priors_samples_per_batch_partition:
  assumes "1 \<le> N_SIM_BATCHES config"
    and "write_to_files \<longrightarrow>
         (\<forall>iB < nat (N_SIM_BATCHES config). batch_priors_filepath iB \<notin> unwritable fs)"
  shows "\<exists>batches fs'.
           priors_samples_per_batch sampled batch_priors_filepath (Some s) config write_to_files fs
             = Inr (batches, fs')
         \<and> batches = map (\<lambda>iB. slice_from_step s iB (nat (N_SIM_BATCHES config)))
                          [0 ..< nat (N_SIM_BATCHES config)]
         \<and> (\<forall>b < length batches. \<forall>j < length (batches ! b).
               batches ! b ! j = s ! (b + j * nat (N_SIM_BATCHES config)))
         \<and> mset (concat batches) = mset s
         \<and> sum_list (map length batches) = length s"
proof -
  let ?n = "nat (N_SIM_BATCHES config)"
  let ?bs = "map (\<lambda>iB. slice_from_step s iB ?n) [0 ..< ?n]"
  have n: "0 < ?n" using assms(1) by simp
  have "write_to_files \<longrightarrow> (\<forall>iB \<in> set [0 ..< ?n]. batch_priors_filepath iB \<notin> unwritable fs)"
    using assms(2) by simp
  from batches_loop_returns[OF this, of s ?n "[]"]
  obtain fs' where run:
    "batches_loop batch_priors_filepath write_to_files s ?n [0 ..< ?n] [] fs = Inr (?bs, fs')"
    by auto
  have r: "priors_samples_per_batch sampled batch_priors_filepath (Some s) config write_to_files fs
           = Inr (?bs, fs')"
    using run by (simp add: priors_samples_per_batch_def)
  have items: "\<forall>b < length ?bs. \<forall>j < length (?bs ! b). ?bs ! b ! j = s ! (b + j * ?n)"
    by (simp add: slice_from_step_nth)
  show ?thesis
    using r items mset_slices[OF n, of s] length_slices[OF n, of s] by blast
qed

theorem priors_samples_per_batch_partition_witness:
  "\<exists>fs'. priors_samples_per_batch (Inl ValueError) (\<lambda>iB. ''batch'')
            (Some [10, 11, 12, 13, 14 :: nat])
            \<lparr>N_SIM_BATCHES = 2, N_FIT_RUNS = 1, Gs = [0 :: nat]\<rparr> True
            \<lparr>files = Map.empty, unwritable = {}\<rparr>
          = Inr ([[10, 12, 14], [11, 13]], fs')"
proof -
  let ?c = "\<lparr>N_SIM_BATCHES = 2, N_FIT_RUNS = 1, Gs = [0 :: nat]\<rparr>"
  let ?fs = "\<lparr>files = Map.empty, unwritable = {}\<rparr> :: nat list filesystem"
  have h1: "1 \<le> N_SIM_BATCHES ?c" by simp
  have h2: "True \<longrightarrow> (\<forall>iB < nat (N_SIM_BATCHES ?c). (\<lambda>iB. ''batch'') iB \<notin> unwritable ?fs)"
    by simp
  have e: "map (\<lambda>iB. slice_from_step [10, 11, 12, 13, 14 :: nat] iB (nat (N_SIM_BATCHES ?c)))
             [0 ..< nat (N_SIM_BATCHES ?c)] = [[10, 12, 14], [11, 13]]"
    by (simp add: slice_from_step_def upt_rec)
  from priors_samples_per_batch_partition[OF h1 h2, of "Inl ValueError" "[10, 11, 12, 13, 14]"]
  show ?thesis unfolding e by blast
qed


section \<open>Communicator.print_str reads the other endpoint\<close>

text \<open>
  C4. A Sender instance has the attribute \<open>target\<close> and no \<open>source\<close>. Its \<open>print_str\<close>
  passes the flag \<open>True\<close> to \<open>Communicator.print_str\<close>, which on \<open>True\<close> reads
  \<open>self.source\<close>: the only attribute read is \<open>source\<close>, and the call ends with
  AttributeError. (A Receiver's \<open>print_str\<close> reads \<open>target\<close> in the same way.)
\<close>

theorem Sender_print_str_reads_source:
  "Sender_print_str (Sender_instance ''NPZWriter'' ''out.npz'')
     = ([''source''], Inl (AttributeError ''source''))"
  by (simp add: Sender_print_str_def Communicator_print_str_def getattr_def Sender_instance_def)

lemma Receiver_print_str_reads_target:
  "Receiver_print_str (Receiver_instance ''NPZReader'' ''in.npz'')
     = ([''target''], Inl (AttributeError ''target''))"
  by (simp add: Receiver_print_str_def Communicator_print_str_def getattr_def
      Receiver_instance_def)


section \<open>The file transport: what is written and what is read back\<close>

text \<open>
  C8. \<open>NPZWriter.send(data)\<close>, when the write succeeds, persists exactly two named
  arrays, \<open>time\<close> holding \<open>data[0]\<close> and \<open>values\<close> holding \<open>data[1]\<close>, in a single
  archive that is not compressed, at the target path with \<open>.npz\<close> appended when the
  target does not end with it; \<open>NPZReader.receive\<close> reads the two arrays back by those
  names.
\<close>

theorem NPZWriter_send_persists:
  assumes "npz_path target \<notin> unwritable fs"
  shows "NPZWriter_send target (PySeq (t # v # rest)) fs =
           Inr (fs\<lparr>files := (files fs)(npz_path target \<mapsto>
                       Npz (NpzFile False [(''time'', t), (''values'', v)]))\<rparr>)
         \<and> npz_getitem (NpzFile False [(''time'', t), (''values'', v)]) ''time'' = Inr t
         \<and> npz_getitem (NpzFile False [(''time'', t), (''values'', v)]) ''values'' = Inr v"
  using assms
  by (simp add: NPZWriter_send_def np_savez_def write_file_def npz_getitem_def)

text \<open>The same at a concrete target and pair of arrays.\<close>

theorem NPZWriter_send_persists_witness:
  "NPZWriter_send ''a.npz'' (PySeq [NDArray [2] [0, 1 :: int], NDArray [2, 1] [5, 6]])
      \<lparr>files = Map.empty, unwritable = {}\<rparr>
   = Inr \<lparr>files = [''a.npz'' \<mapsto> Npz (NpzFile False
                      [(''time'', NDArray [2] [0, 1]), (''values'', NDArray [2, 1] [5, 6])])],
          unwritable = {}\<rparr>"
proof -
  let ?fs = "\<lparr>files = Map.empty, unwritable = {}\<rparr> :: int disk_file filesystem"
  have h: "npz_path ''a.npz'' \<notin> unwritable ?fs" by simp
  have p: "npz_path ''a.npz'' = ''a.npz''" by (simp add: npz_path_def endswith_def)
  from NPZWriter_send_persists[OF h, of "NDArray [2] [0, 1]" "NDArray [2, 1] [5, 6]" "[]"]
  show ?thesis unfolding p by simp
qed

text \<open>
  The archive written for the target \<open>a.npz\<close> is stored uncompressed, and for the target
  \<open>out\<close> the only file afterwards is \<open>out.npz\<close>: nothing is persisted at the path
  \<open>out\<close> itself.
\<close>

theorem NPZWriter_send_counterexample:
  "NPZWriter_send ''a.npz'' (PySeq [NDArray [3] [0, 1, 2 :: int], NDArray [3, 1] [1, 2, 3]])
       \<lparr>files = Map.empty, unwritable = {}\<rparr>
     = Inr \<lparr>files = [''a.npz'' \<mapsto> Npz (NpzFile False
               [(''time'', NDArray [3] [0, 1, 2]), (''values'', NDArray [3, 1] [1, 2, 3])])],
            unwritable = {}\<rparr>
   \<and> compressed (NpzFile False
         [(''time'', NDArray [3] [0, 1, 2 :: int]), (''values'', NDArray [3, 1] [1, 2, 3])]) = False
   \<and> NPZWriter_send ''out'' (PySeq [NDArray [3] [0, 1, 2 :: int], NDArray [3, 1] [1, 2, 3]])
       \<lparr>files = Map.empty, unwritable = {}\<rparr>
     = Inr \<lparr>files = [''out.npz'' \<mapsto> Npz (NpzFile False
               [(''time'', NDArray [3] [0, 1, 2]), (''values'', NDArray [3, 1] [1, 2, 3])])],
            unwritable = {}\<rparr>"
  by (simp add: NPZWriter_send_def np_savez_def write_file_def npz_path_def endswith_def)

text \<open>
  C1. For every (time, values) pair and every target path at which the write succeeds,
  \<open>NPZWriter.send\<close> followed by \<open>NPZReader.receive\<close> from the path the archive was
  written to returns the two-element sequence \<open>[time, values]\<close>, the arrays exactly as
  sent. That path is the target itself when the target ends with \<open>.npz\<close>, and the target
  with \<open>.npz\<close> appended otherwise. A reader whose source is the target itself therefore
  gets the pair back when the target ends with \<open>.npz\<close>; when it does not, and no file
  was at the target before the send, that reader fails with FileNotFoundError.
\<close>

theorem NPZ_roundtrip:
  assumes "npz_path target \<notin> unwritable fs"
  shows "\<exists>fs'. NPZWriter_send target (PySeq (t # v # rest)) fs = Inr fs'
             \<and> NPZReader_receive (npz_path target) fs' = Inr [t, v]
             \<and> (endswith target ''.npz'' \<longrightarrow> NPZReader_receive target fs' = Inr [t, v])
             \<and> (\<not> endswith target ''.npz'' \<and> files fs target = None \<longrightarrow>
                  NPZReader_receive target fs' = Inl (FileNotFoundError target))"
  using assms
  by (simp add: NPZWriter_send_def NPZReader_receive_def np_savez_def np_load_def
      write_file_def read_file_def npz_getitem_def npz_path_def)

text \<open>
  A round trip on the path \<open>run/a.npz\<close>, and the failing read after a send to the path
  \<open>out\<close> on an empty file system.
\<close>

theorem NPZ_roundtrip_witness:
  "(\<exists>fs'. NPZWriter_send ''run/a.npz''
            (PySeq [NDArray [3] [0, 1, 2 :: int], NDArray [3, 1] [1, 2, 3]])
            \<lparr>files = Map.empty, unwritable = {}\<rparr> = Inr fs'
        \<and> NPZReader_receive ''run/a.npz'' fs'
            = Inr [NDArray [3] [0, 1, 2], NDArray [3, 1] [1, 2, 3]])
   \<and> (\<exists>fs'. NPZWriter_send ''out''
            (PySeq [NDArray [3] [0, 1, 2 :: int], NDArray [3, 1] [1, 2, 3]])
            \<lparr>files = Map.empty, unwritable = {}\<rparr> = Inr fs'
        \<and> NPZReader_receive ''out.npz'' fs'
            = Inr [NDArray [3] [0, 1, 2], NDArray [3, 1] [1, 2, 3]]
        \<and> NPZReader_receive ''out'' fs' = Inl (FileNotFoundError ''out''))"
proof -
  let ?fs = "\<lparr>files = Map.empty, unwritable = {}\<rparr> :: int disk_file filesystem"
  have h: "npz_path ''run/a.npz'' \<notin> unwritable ?fs" by simp
  have e: "endswith ''run/a.npz'' ''.npz''" by (simp add: endswith_def)
  have h': "npz_path ''out'' \<notin> unwritable ?fs" by simp
  have e': "\<not> endswith ''out'' ''.npz'' \<and> files ?fs ''out'' = None"
    by (simp add: endswith_def)
  have p': "npz_path ''out'' = ''out.npz''" by (simp add: npz_path_def endswith_def)
  from NPZ_roundtrip[OF h, of "NDArray [3] [0, 1, 2]" "NDArray [3, 1] [1, 2, 3]" "[]"] e
  have one: "\<exists>fs'. NPZWriter_send ''run/a.npz''
            (PySeq [NDArray [3] [0, 1, 2 :: int], NDArray [3, 1] [1, 2, 3]]) ?fs = Inr fs'
        \<and> NPZReader_receive ''run/a.npz'' fs'
            = Inr [NDArray [3] [0, 1, 2], NDArray [3, 1] [1, 2, 3]]"
    by blast
  from NPZ_roundtrip[OF h', of "NDArray [3] [0, 1, 2]" "NDArray [3, 1] [1, 2, 3]" "[]"] e'
  have two: "\<exists>fs'. NPZWriter_send ''out''
            (PySeq [NDArray [3] [0, 1, 2 :: int], NDArray [3, 1] [1, 2, 3]]) ?fs = Inr fs'
        \<and> NPZReader_receive ''out.npz'' fs'
            = Inr [NDArray [3] [0, 1, 2], NDArray [3, 1] [1, 2, 3]]
        \<and> NPZReader_receive ''out'' fs' = Inl (FileNotFoundError ''out'')"
    unfolding p' by blast
  from one two show ?thesis by (rule conjI)
qed

text \<open>
  With the target \<open>out\<close>, which does not end with \<open>.npz\<close>, the archive is written to
  \<open>out.npz\<close> and receiving from \<open>out\<close> finds no file.
\<close>

theorem NPZ_roundtrip_counterexample:
  "NPZWriter_send ''out'' (PySeq [NDArray [3] [0, 1, 2 :: int], NDArray [3, 1] [1, 2, 3]])
       \<lparr>files = Map.empty, unwritable = {}\<rparr>
     = Inr \<lparr>files = [''out.npz'' \<mapsto> Npz (NpzFile False
               [(''time'', NDArray [3] [0, 1, 2]), (''values'', NDArray [3, 1] [1, 2, 3])])],
            unwritable = {}\<rparr>
   \<and> NPZReader_receive ''out''
       \<lparr>files = [''out.npz'' \<mapsto> Npz (NpzFile False
               [(''time'', NDArray [3] [0, 1, 2 :: int]), (''values'', NDArray [3, 1] [1, 2, 3])])],
        unwritable = {}\<rparr>
     = Inl (FileNotFoundError ''out'')"
  by (simp add: NPZWriter_send_def NPZReader_receive_def np_savez_def np_load_def
      write_file_def read_file_def npz_path_def endswith_def)


section \<open>Errors of send and receive\<close>





section \<open>The in-memory transport copies, and reads the other pair of buffers\<close>

lemma update_fresh_keeps:
  "r < length xs \<Longrightarrow> length xs \<le> k \<Longrightarrow> ((xs @ ys)[k := w]) ! r = xs ! r"
  by (simp add: list_update_append nth_append)

text \<open>
  C2. For every Transformer \<open>t\<close> and every pair of live arrays (time, values),
  \<open>SetToTransformer.send([time, values])\<close> with target \<open>t\<close> stores new arrays with the
  contents of time and values in \<open>t.input_time\<close> and \<open>t.input_buffer\<close> and leaves the
  output buffers of \<open>t\<close> alone; a following \<open>GetFromTransformer.receive()\<close> with source
  \<open>t\<close> returns new arrays with the contents of \<open>t.output_time\<close> and
  \<open>t.output_buffer\<close>. No array identity is shared: changing the sender's arrays after
  the send changes nothing of what is stored, and changing a received array changes no
  array that existed before the receive.
\<close>

theorem transformer_send_receive_copies:
  assumes "r0 < length h" and "r1 < length h"
    and "output_time tr < length h" and "output_buffer tr < length h"
  shows "\<exists>tr' h' a b h''.
           SetToTransformer_send tr (PySeq [r0, r1]) h = Inr (tr', h')
         \<and> h' ! input_time tr' = h ! r0 \<and> h' ! input_buffer tr' = h ! r1
         \<and> output_time tr' = output_time tr \<and> output_buffer tr' = output_buffer tr
         \<and> input_time tr' \<notin> {r0, r1} \<and> input_buffer tr' \<notin> {r0, r1}
         \<and> (\<forall>w. setitem h' r0 w ! input_time tr' = h ! r0
                \<and> setitem h' r1 w ! input_buffer tr' = h ! r1)
         \<and> GetFromTransformer_receive tr' h' = ([a, b], h'')
         \<and> h'' ! a = h ! output_time tr \<and> h'' ! b = h ! output_buffer tr
         \<and> length h' \<le> a \<and> length h' \<le> b \<and> a \<noteq> b
         \<and> (\<forall>w r. r < length h' \<longrightarrow>
                setitem h'' a w ! r = h' ! r \<and> setitem h'' b w ! r = h' ! r)"
proof -
  let ?tr' = "tr\<lparr>input_time := length h, input_buffer := Suc (length h)\<rparr>"
  let ?h' = "h @ [h ! r0, h ! r1]"
  let ?h'' = "?h' @ [h ! output_time tr, h ! output_buffer tr]"
  have s: "SetToTransformer_send tr (PySeq [r0, r1]) h = Inr (?tr', ?h')"
    using assms by (simp add: SetToTransformer_send_def np_copy_def nth_append)
  have g: "GetFromTransformer_receive ?tr' ?h' = ([length ?h', Suc (length ?h')], ?h'')"
    using assms by (simp add: GetFromTransformer_receive_def np_copy_def nth_append)
  have a: "?h' ! input_time ?tr' = h ! r0" "?h' ! input_buffer ?tr' = h ! r1"
    by (simp_all add: nth_append)
  have b: "input_time ?tr' \<notin> {r0, r1}" "input_buffer ?tr' \<notin> {r0, r1}"
    using assms by auto
  have c: "\<forall>w. setitem ?h' r0 w ! input_time ?tr' = h ! r0
              \<and> setitem ?h' r1 w ! input_buffer ?tr' = h ! r1"
    using assms by (simp add: setitem_def nth_append list_update_append)
  have d: "?h'' ! length ?h' = h ! output_time tr" "?h'' ! Suc (length ?h') = h ! output_buffer tr"
    by (simp_all add: nth_append)
  have e: "\<forall>w r. r < length ?h' \<longrightarrow>
             setitem ?h'' (length ?h') w ! r = ?h' ! r
           \<and> setitem ?h'' (Suc (length ?h')) w ! r = ?h' ! r"
    unfolding setitem_def by (intro allI impI conjI update_fresh_keeps) simp_all
  show ?thesis
    apply (rule exI[of _ ?tr'], rule exI[of _ ?h'])
    apply (rule exI[of _ "length ?h'"], rule exI[of _ "Suc (length ?h')"], rule exI[of _ ?h''])
    using s g a b c d e by simp
qed

text \<open>The same on a store of six arrays.\<close>

theorem transformer_send_receive_copies_witness:
  "\<exists>tr' h' a b h''.
     SetToTransformer_send
       \<lparr>input_time = 2, input_buffer = 3, output_time = 4, output_buffer = 5\<rparr> (PySeq [0, 1])
       [NDArray [3] [0, 1, 2 :: int], NDArray [3, 1] [1, 2, 3], NDArray [0] [], NDArray [0, 1] [],
        NDArray [1] [9], NDArray [1, 1] [9]] = Inr (tr', h')
   \<and> h' ! input_time tr' = NDArray [3] [0, 1, 2]
   \<and> h' ! input_buffer tr' = NDArray [3, 1] [1, 2, 3]
   \<and> GetFromTransformer_receive tr' h' = ([a, b], h'')
   \<and> h'' ! a = NDArray [1] [9] \<and> h'' ! b = NDArray [1, 1] [9]"
proof -
  let ?h = "[NDArray [3] [0, 1, 2 :: int], NDArray [3, 1] [1, 2, 3], NDArray [0] [],
             NDArray [0, 1] [], NDArray [1] [9], NDArray [1, 1] [9]]"
  let ?tr = "\<lparr>input_time = 2, input_buffer = 3, output_time = 4, output_buffer = 5\<rparr>"
  have h1: "0 < length ?h" and h2: "1 < length ?h" by simp_all
  have h3: "output_time ?tr < length ?h" and h4: "output_buffer ?tr < length ?h" by simp_all
  from transformer_send_receive_copies[OF h1 h2 h3 h4]
  obtain tr' h' a b h'' where
    "SetToTransformer_send ?tr (PySeq [0, 1]) ?h = Inr (tr', h')"
    "h' ! input_time tr' = ?h ! 0" "h' ! input_buffer tr' = ?h ! 1"
    "GetFromTransformer_receive tr' h' = ([a, b], h'')"
    "h'' ! a = ?h ! output_time ?tr" "h'' ! b = ?h ! output_buffer ?tr"
    by blast
  then show ?thesis by (intro exI[of _ tr'] exI[of _ h'] exI[of _ a] exI[of _ b] exI[of _ h'']) simp
qed

text \<open>
  A transformer whose output buffers (arrays 4 and 5 of the store) hold \<open>[9]\<close> and
  \<open>[[9]]\<close>: sending time \<open>[0, 1, 2]\<close> and values \<open>[[1], [2], [3]]\<close> (arrays 0 and 1)
  to it stores copies as arrays 6 and 7 in the input buffers, and receiving from it then
  returns arrays 8 and 9, copies of the output buffers \<open>[9]\<close> and \<open>[[9]]\<close>, not the
  pair that was sent.
\<close>

theorem transformer_send_receive_counterexample:
  "SetToTransformer_send
       \<lparr>input_time = 2, input_buffer = 3, output_time = 4, output_buffer = 5\<rparr> (PySeq [0, 1])
       [NDArray [3] [0, 1, 2 :: int], NDArray [3, 1] [1, 2, 3], NDArray [0] [], NDArray [0, 1] [],
        NDArray [1] [9], NDArray [1, 1] [9]]
     = Inr (\<lparr>input_time = 6, input_buffer = 7, output_time = 4, output_buffer = 5\<rparr>,
            [NDArray [3] [0, 1, 2], NDArray [3, 1] [1, 2, 3], NDArray [0] [], NDArray [0, 1] [],
             NDArray [1] [9], NDArray [1, 1] [9], NDArray [3] [0, 1, 2], NDArray [3, 1] [1, 2, 3]])
   \<and> GetFromTransformer_receive
       \<lparr>input_time = 6, input_buffer = 7, output_time = 4, output_buffer = 5\<rparr>
       [NDArray [3] [0, 1, 2 :: int], NDArray [3, 1] [1, 2, 3], NDArray [0] [], NDArray [0, 1] [],
        NDArray [1] [9], NDArray [1, 1] [9], NDArray [3] [0, 1, 2], NDArray [3, 1] [1, 2, 3]]
     = ([8, 9],
        [NDArray [3] [0, 1, 2], NDArray [3, 1] [1, 2, 3], NDArray [0] [], NDArray [0, 1] [],
         NDArray [1] [9], NDArray [1, 1] [9], NDArray [3] [0, 1, 2], NDArray [3, 1] [1, 2, 3],
         NDArray [1] [9], NDArray [1, 1] [9]])"
  by (simp add: SetToTransformer_send_def GetFromTransformer_receive_def np_copy_def)


section \<open>Loading posterior samples for all Gs\<close>

lemma store_under_G_unbound: "store_under_G None v samples = Inl (NameError ''G'')"
  by (simp add: store_under_G_def)

lemma Gs_loop_unbound_G:
  "fst (Gs_loop None load config runs iGs samples ws) = Inr samples
   \<or> fst (Gs_loop None load config runs iGs samples ws) = Inl IndexError"
proof (induction iGs arbitrary: ws)
  case Nil
  then show ?case by simp
next
  case (Cons iG iGs)
  show ?case
    using Cons.IH
    by (auto simp: store_under_G_unbound warn_failed_def split: sum.splits prod.splits if_splits)
qed

lemma all_Gs_unbound_G:
  "fst (load_posterior_samples_all_Gs None load config iGs runs) \<in> {Inr [], Inl IndexError}"
  using Gs_loop_unbound_G[of load config runs _ "[]" "[]"]
  by (auto simp: load_posterior_samples_all_Gs_def)

lemma runs_loop_returns:
  assumes "iG < length (Gs config)"
  shows "\<exists>s. fst (runs_loop load config iG runs samples ws) = Inr s"
  using assms
  by (induction runs arbitrary: samples ws)
     (auto simp: warn_failed_def split: sum.splits prod.splits option.splits)

text \<open>
  C9. One G index, one run, and a samples file that loads: the aggregation over the runs
  has the loaded sample, while the aggregation over the Gs, with no name \<open>G\<close> bound,
  comes back empty with a warning for the G index. With a name \<open>G\<close> bound at module
  level, two G indices that both load leave one entry, that of the last index.
\<close>

theorem all_Gs_drops_loaded_samples:
  "load_posterior_samples_all_runs (\<lambda>iG iR. Inr [(''mean'', SList [5 :: int]), (''G'', SScalar 2)])
       \<lparr>N_SIM_BATCHES = 1, N_FIT_RUNS = 1, Gs = [2 :: int]\<rparr> 0 (RunsList [0]) None []
     = (Inr [(''mean'', [5])], [])
   \<and> load_posterior_samples_all_Gs (None :: int option)
       (\<lambda>iG iR. Inr [(''mean'', SList [5 :: int]), (''G'', SScalar 2)])
       \<lparr>N_SIM_BATCHES = 1, N_FIT_RUNS = 1, Gs = [2 :: int]\<rparr> (Some [0]) (RunsList [0])
     = (Inr [], [Warning 0 None (NameError ''G'')])
   \<and> load_posterior_samples_all_Gs (Some (9 :: int))
       (\<lambda>iG iR. Inr [(''mean'', SList [int iG])])
       \<lparr>N_SIM_BATCHES = 1, N_FIT_RUNS = 1, Gs = [2, 3 :: int]\<rparr> (Some [0, 1]) (RunsList [0])
     = (Inr [(9, AllRuns [(''mean'', [1])])], [])"
  by (simp add: load_posterior_samples_all_Gs_def load_posterior_samples_all_runs_def
      store_under_G_def warn_failed_def)


section \<open>The spike detector's readout\<close>

lemma events_loop_raises:
  "\<exists>e. events_loop self i ((monitor, population) # rest) ev = Inl e"
  by (simp add: getattr_data_def split: sum.splits)

lemma SpikeDetector_events_never_returns:
  assumes "monitors self \<noteq> []"
  shows "isl (SpikeDetector_events self)"
proof (cases "SpikeDetector_record self")
  case (Inl e)
  then show ?thesis by (simp add: SpikeDetector_events_def)
next
  case (Inr self')
  then have "monitors self' = monitors self"
    by (auto simp: SpikeDetector_record_def split: sum.splits)
  then have "monitors self' \<noteq> []" using assms by simp
  then obtain m rest where ms: "monitors self' = m # rest"
    by (auto simp: neq_Nil_conv)
  obtain monitor population where m: "m = (monitor, population)" by (cases m)
  obtain e where "events_loop self' 0 (monitors self') \<lparr>ev_times = [], ev_senders = []\<rparr> = Inl e"
    using events_loop_raises[of self' 0 monitor population rest] unfolding ms m by blast
  then show ?thesis using Inr by (simp add: SpikeDetector_events_def)
qed

lemma update_items_list:
  "update_items (DataList ds) i items = Inr b \<Longrightarrow> \<exists>ds'. b = DataList ds'"
  by (induction items arbitrary: ds) (auto split: if_splits sum.splits)

lemma record_loop_list:
  "record_loop i ms (DataList ds) = Inr b \<Longrightarrow> \<exists>ds'. b = DataList ds'"
proof (induction ms arbitrary: i ds)
  case Nil
  then show ?case by auto
next
  case (Cons m ms)
  obtain monitor population where m: "m = (monitor, population)" by (cases m)
  from Cons.prems show ?case
    unfolding m
    by (auto split: sum.splits if_splits dest!: update_items_list dest: Cons.IH)
qed

lemma SpikeDetector_number_of_events_never_returns:
  assumes "monitors self \<noteq> []"
  shows "isl (SpikeDetector_number_of_events self)"
proof (cases "data_buffer self")
  case DataArray_empty
  obtain m ms where ms: "monitors self = m # ms" using assms by (cases "monitors self") auto
  obtain monitor population where m: "m = (monitor, population)" by (cases m)
  show ?thesis
    by (simp add: SpikeDetector_number_of_events_def SpikeDetector_record_def
        DataArray_empty ms m)
next
  case (DataList ds)
  show ?thesis
  proof (cases "record_loop 0 (monitors self) (DataList ds)")
    case (Inl e)
    then show ?thesis
      by (simp add: SpikeDetector_number_of_events_def SpikeDetector_record_def DataList)
  next
    case (Inr b)
    then obtain ds' where "b = DataList ds'" using record_loop_list by blast
    then show ?thesis using Inr
      by (simp add: SpikeDetector_number_of_events_def SpikeDetector_record_def DataList)
  qed
qed

text \<open>
  C6. A spike detector as its constructor leaves it, with \<open>_data\<close> the empty DataArray,
  and with one monitor whose recorder holds one spike of neuron 0: reading \<open>events\<close>
  ends with AttributeError, raised in \<open>_record\<close> by \<open>self._data.append\<close>. No mapping
  is returned.
\<close>

theorem SpikeDetector_events_raises:
  "SpikeDetector_events
     \<lparr>monitors = [([(0, [1 :: int])], 7)], network_populations = [7],
      data_buffer = DataArray_empty\<rparr> = Inl (AttributeError ''append'')"
  by (simp add: SpikeDetector_events_def SpikeDetector_record_def)

text \<open>
  C7. On the same spike detector \<open>number_of_events\<close> returns no count: it ends with
  AttributeError, in \<open>_record\<close> when \<open>_data\<close> is the empty DataArray, and at
  \<open>self._data.size\<close> when \<open>_data\<close> is a list.
\<close>

theorem SpikeDetector_number_of_events_raises:
  "SpikeDetector_number_of_events
     \<lparr>monitors = [([(0, [1 :: int])], 7)], network_populations = [7],
      data_buffer = DataArray_empty\<rparr> = Inl (AttributeError ''append'')
   \<and> SpikeDetector_number_of_events
     \<lparr>monitors = [([(0, [1 :: int])], 7)], network_populations = [7],
      data_buffer = DataList []\<rparr> = Inl (AttributeError ''size'')"
  by (simp add: SpikeDetector_number_of_events_def SpikeDetector_record_def)

end
